theory Spec2Isabelle
  imports Complex_Main "HOL-Library.AList" "HOL-Library.Sublist"
begin

section \<open>The analytics engine of the news reader (frontend/src/pages/Analytics.tsx)\<close>

text \<open>
  The derived values of the Analytics page are pure functions of the article list, the
  feed list, the selected time range, the optional server aggregate and the clock. Each
  \<open>useMemo\<close> body of the component is one definition below, under the name it has in the
  source.

  Conventions of the embedding.
  \<^item> A JavaScript \<open>Date\<close> is the number of milliseconds on the local time line (an
    \<open>int\<close>); the local zone has a fixed offset, so that a calendar day is
    \<open>msPerDay\<close> milliseconds long.
  \<^item> \<open>format(d, 'yyyy-MM-dd')\<close> is the number of the local calendar day of \<open>d\<close>. The
    day key of the source is a string; for years of four digits these strings are in
    one-to-one correspondence with the day numbers and their string order is the order
    of the day numbers, which is all the source uses of them.
  \<^item> A JavaScript number that holds a count is a \<open>nat\<close> or an \<open>int\<close>; a number that
    holds a score or a ratio is a \<open>real\<close>, computed exactly.
  \<^item> A value that may be \<open>null\<close> or \<open>undefined\<close> is an \<open>option\<close>.
  \<^item> A \<open>Map\<close> is an association list in insertion order: \<open>get\<close> is \<open>map_of\<close>,
    \<open>set\<close> is \<open>AList.update\<close> (an existing key keeps its place, a new key goes to the
    end).
  \<^item> \<open>Array.prototype.sort\<close> is stable; with the comparator \<open>(a, b) => k b - k a\<close> it is
    \<open>sort_key\<close> on the negated key.
\<close>

subsection \<open>Dates and rounding\<close>

type_synonym date = int

definition msPerDay :: int where
  "msPerDay = 1000 * 60 * 60 * 24"

text \<open>\<open>format(d, 'yyyy-MM-dd')\<close>: the calendar day of a date.\<close>

definition formatDay :: "date \<Rightarrow> int" where
  "formatDay d = d div msPerDay"

text \<open>\<open>new Date(`${key}T00:00:00`)\<close>: local midnight of a day key.\<close>

definition midnightOf :: "int \<Rightarrow> date" where
  "midnightOf key = key * msPerDay"

text \<open>\<open>subDays\<close> of date-fns.\<close>

definition subDays :: "date \<Rightarrow> int \<Rightarrow> date" where
  "subDays d n = d - n * msPerDay"

text \<open>\<open>new Date(now.getFullYear(), now.getMonth(), now.getDate(), 23, 59, 59, 999)\<close>.\<close>

definition endOfToday :: "date \<Rightarrow> date" where
  "endOfToday now = midnightOf (formatDay now) + (23 * 3600000 + 59 * 60000 + 59 * 1000 + 999)"

text \<open>\<open>Math.round\<close>: the nearest integer, a tie going up.\<close>

definition mathRound :: "real \<Rightarrow> int" where
  "mathRound x = \<lfloor>x + 1 / 2\<rfloor>"

subsection \<open>Input records (frontend/src/types/index.ts)\<close>

text \<open>The fields the analytics read; \<open>id\<close> is written \<open>a_id\<close> and \<open>f_id\<close>.\<close>

record article =
  a_id :: int
  feed_id :: int
  published_date :: "string option"
  created_at :: string
  cluster_id :: "int option"
  sentiment_score :: "real option"
  topics :: "string list option"
  is_read :: bool
  is_bookmarked :: bool

record feed =
  f_id :: int
  title :: "string option"
  is_active :: bool

datatype timeRange = R7 | R30 | R90 | RAll

text \<open>
  \<open>parseArticleDate\<close>. The \<open>Date\<close> constructor is the parameter \<open>newDate\<close>, which is
  \<open>None\<close> where \<open>getTime()\<close> is \<open>NaN\<close>. An empty string is falsy, both under \<open>||\<close> and
  under \<open>!\<close>.
\<close>

definition parseArticleDate :: "(string \<Rightarrow> date option) \<Rightarrow> article \<Rightarrow> date option" where
  "parseArticleDate newDate a =
     (let raw = (case published_date a of
                   None \<Rightarrow> created_at a
                 | Some s \<Rightarrow> if s = [] then created_at a else s)
      in if raw = [] then None else newDate raw)"

subsection \<open>Time window and article filter\<close>

definition timeRangeDays :: "timeRange \<Rightarrow> int option" where
  "timeRangeDays r = (case r of RAll \<Rightarrow> None | R7 \<Rightarrow> Some 7 | R30 \<Rightarrow> Some 30 | R90 \<Rightarrow> Some 90)"

definition cutoffDate :: "date \<Rightarrow> int option \<Rightarrow> date option" where
  "cutoffDate now days =
     (case days of
        None \<Rightarrow> None
      | Some n \<Rightarrow> Some (subDays (endOfToday now) (n - 1)))"

definition keepArticle :: "(string \<Rightarrow> date option) \<Rightarrow> date option \<Rightarrow> article \<Rightarrow> bool" where
  "keepArticle newDate cutoff a =
     (case cutoff of
        None \<Rightarrow> True
      | Some c \<Rightarrow>
          (case parseArticleDate newDate a of
             None \<Rightarrow> False
           | Some d \<Rightarrow> d \<ge> c))"

definition filteredArticles ::
  "(string \<Rightarrow> date option) \<Rightarrow> article list option \<Rightarrow> date option \<Rightarrow> article list" where
  "filteredArticles newDate articles cutoff =
     (case articles of
        None \<Rightarrow> []
      | Some as \<Rightarrow> filter (keepArticle newDate cutoff) as)"

subsection \<open>Engagement\<close>

record counts =
  total :: nat
  read :: nat
  unread :: nat

record sentimentCounts =
  positive :: nat
  slightlyPositive :: nat
  neutral :: nat
  slightlyNegative :: nat
  negative :: nat

record feedPerformanceItem = counts +
  feedId :: int
  name :: string
  active :: bool
  readRate :: int

text \<open>The accumulators of the \<open>forEach\<close> over the filtered articles.\<close>

record engagementAcc =
  acc_readCount :: nat
  acc_bookmarkCount :: nat
  acc_unreadCount :: nat
  acc_uniqueDaySet :: "int list"
  acc_topicCounts :: "(string \<times> nat) list"
  acc_feedTotals :: "(int \<times> counts) list"
  acc_sentimentBuckets :: sentimentCounts

record engagementResult =
  e_total :: nat
  readCount :: nat
  unreadCount :: nat
  bookmarkCount :: nat
  e_readRate :: int
  averagePerDay :: int
  activeFeeds :: nat
  uniqueDays :: int
  topTopics :: "(string \<times> nat) list"
  feedPerformance :: "feedPerformanceItem list"
  fallbackSentiments :: sentimentCounts

definition emptyCounts :: counts where
  "emptyCounts = \<lparr>total = 0, read = 0, unread = 0\<rparr>"

text \<open>One more article in an entry \<open>{total, read, unread}\<close>.\<close>

definition countArticle :: "bool \<Rightarrow> counts \<Rightarrow> counts" where
  "countArticle isRead entry =
     (let entry = entry\<lparr>total := total entry + 1\<rparr>
      in if isRead then entry\<lparr>read := read entry + 1\<rparr>
         else entry\<lparr>unread := unread entry + 1\<rparr>)"

text \<open>\<open>m.set(k, countArticle (m.get(k) || {total: 0, read: 0, unread: 0}))\<close>.\<close>

definition bumpCounts :: "'k \<Rightarrow> bool \<Rightarrow> ('k \<times> counts) list \<Rightarrow> ('k \<times> counts) list" where
  "bumpCounts k isRead m =
     AList.update k (countArticle isRead (case map_of m k of None \<Rightarrow> emptyCounts | Some e \<Rightarrow> e)) m"

text \<open>\<open>topicCounts.set(topic, (topicCounts.get(topic) || 0) + 1)\<close>.\<close>

definition bumpTopic :: "string \<Rightarrow> (string \<times> nat) list \<Rightarrow> (string \<times> nat) list" where
  "bumpTopic topic m = AList.update topic ((case map_of m topic of None \<Rightarrow> 0 | Some c \<Rightarrow> c) + 1) m"

text \<open>The threshold chain on a sentiment score, in the order of the source.\<close>

definition addSentiment :: "real \<Rightarrow> sentimentCounts \<Rightarrow> sentimentCounts" where
  "addSentiment score b =
     (if score \<ge> 0.5 then b\<lparr>positive := positive b + 1\<rparr>
      else if score \<ge> 0.05 then b\<lparr>slightlyPositive := slightlyPositive b + 1\<rparr>
      else if score \<le> - 0.5 then b\<lparr>negative := negative b + 1\<rparr>
      else if score \<le> - 0.05 then b\<lparr>slightlyNegative := slightlyNegative b + 1\<rparr>
      else b\<lparr>neutral := neutral b + 1\<rparr>)"

definition engagementStep ::
  "(string \<Rightarrow> date option) \<Rightarrow> article \<Rightarrow> engagementAcc \<Rightarrow> engagementAcc" where
  "engagementStep newDate a s =
     (let s = (if is_read a then s\<lparr>acc_readCount := acc_readCount s + 1\<rparr>
               else s\<lparr>acc_unreadCount := acc_unreadCount s + 1\<rparr>);
          s = (if is_bookmarked a then s\<lparr>acc_bookmarkCount := acc_bookmarkCount s + 1\<rparr> else s);
          s = (case parseArticleDate newDate a of
                 None \<Rightarrow> s
               | Some d \<Rightarrow> s\<lparr>acc_uniqueDaySet := List.insert (formatDay d) (acc_uniqueDaySet s)\<rparr>);
          s = (case topics a of
                 None \<Rightarrow> s
               | Some ts \<Rightarrow> s\<lparr>acc_topicCounts := fold bumpTopic ts (acc_topicCounts s)\<rparr>);
          s = s\<lparr>acc_feedTotals := bumpCounts (feed_id a) (is_read a) (acc_feedTotals s)\<rparr>
      in (case sentiment_score a of
            None \<Rightarrow> s
          | Some score \<Rightarrow> s\<lparr>acc_sentimentBuckets := addSentiment score (acc_sentimentBuckets s)\<rparr>))"

definition engagementInit :: engagementAcc where
  "engagementInit =
     \<lparr>acc_readCount = 0, acc_bookmarkCount = 0, acc_unreadCount = 0, acc_uniqueDaySet = [],
      acc_topicCounts = [], acc_feedTotals = [],
      acc_sentimentBuckets =
        \<lparr>positive = 0, slightlyPositive = 0, neutral = 0, slightlyNegative = 0, negative = 0\<rparr>\<rparr>"

text \<open>\<open>new Map(feeds.map((feed) => [feed.id, feed]))\<close>: the last feed of an id wins.\<close>

definition feedsById :: "feed list \<Rightarrow> int \<Rightarrow> feed option" where
  "feedsById feeds = map_of (rev (map (\<lambda>f. (f_id f, f)) feeds))"

text \<open>\<open>feed?.title || 'Untitled'\<close>: an empty title is falsy.\<close>

definition feedName :: "feed option \<Rightarrow> string" where
  "feedName f =
     (case f of
        None \<Rightarrow> ''Untitled''
      | Some g \<Rightarrow> (case title g of
                    None \<Rightarrow> ''Untitled''
                  | Some t \<Rightarrow> if t = [] then ''Untitled'' else t))"

text \<open>\<open>feed?.is_active ?? false\<close>.\<close>

definition feedActive :: "feed option \<Rightarrow> bool" where
  "feedActive f = (case f of None \<Rightarrow> False | Some g \<Rightarrow> is_active g)"

definition percentOf :: "nat \<Rightarrow> nat \<Rightarrow> int" where
  "percentOf part whole = (if whole > 0 then mathRound (real part / real whole * 100) else 0)"

definition toPerformance :: "feed list \<Rightarrow> int \<times> counts \<Rightarrow> feedPerformanceItem" where
  "toPerformance feeds entry =
     (case entry of
        (fid, stats) \<Rightarrow>
          \<lparr>total = total stats, read = read stats, unread = unread stats,
           feedId = fid,
           name = feedName (feedsById feeds fid),
           active = feedActive (feedsById feeds fid),
           readRate = percentOf (read stats) (total stats)\<rparr>)"

definition rankFeeds :: "feed list \<Rightarrow> (int \<times> counts) list \<Rightarrow> feedPerformanceItem list" where
  "rankFeeds feeds feedTotals =
     take 10 (sort_key (\<lambda>item. - int (total item))
                (filter (\<lambda>item. total item > 0) (map (toPerformance feeds) feedTotals)))"

definition engagement ::
  "(string \<Rightarrow> date option) \<Rightarrow> feed list option \<Rightarrow> article list option \<Rightarrow>
   article list \<Rightarrow> int option \<Rightarrow> engagementResult option" where
  "engagement newDate feeds articles filtered days =
     (case (feeds, articles) of
        (Some fs, Some _) \<Rightarrow>
          (let s = fold (engagementStep newDate) filtered engagementInit;
               tot = length filtered;
               uniq = (if length (acc_uniqueDaySet s) \<noteq> 0 then int (length (acc_uniqueDaySet s))
                       else (case days of None \<Rightarrow> 0 | Some n \<Rightarrow> n))
           in Some \<lparr>e_total = tot,
                    readCount = acc_readCount s,
                    unreadCount = acc_unreadCount s,
                    bookmarkCount = acc_bookmarkCount s,
                    e_readRate = percentOf (acc_readCount s) tot,
                    averagePerDay = (if uniq > 0 then mathRound (real tot / real_of_int uniq)
                                     else int tot),
                    activeFeeds = length (filter is_active fs),
                    uniqueDays = uniq,
                    topTopics = take 15 (sort_key (\<lambda>e. - int (snd e)) (acc_topicCounts s)),
                    feedPerformance = rankFeeds fs (acc_feedTotals s),
                    fallbackSentiments = acc_sentimentBuckets s\<rparr>)
      | _ \<Rightarrow> None)"


subsection \<open>Daily activity\<close>

text \<open>
  The label of a point is \<open>format(date, 'MMM d')\<close> in a finite window and
  \<open>format(date, 'MMM d, yyyy')\<close> in the window \<open>all\<close>: the pattern applied to a day.
\<close>

datatype dayLabel = MMM_d int | MMM_d_yyyy int

record dailyActivityPoint = counts +
  dateKey :: int
  label :: dayLabel

definition countsStep ::
  "(string \<Rightarrow> date option) \<Rightarrow> article \<Rightarrow> (int \<times> counts) list \<Rightarrow> (int \<times> counts) list" where
  "countsStep newDate a countsMap =
     (case parseArticleDate newDate a of
        None \<Rightarrow> countsMap
      | Some d \<Rightarrow> bumpCounts (formatDay d) (is_read a) countsMap)"

definition mkPoint :: "int \<Rightarrow> dayLabel \<Rightarrow> counts \<Rightarrow> dailyActivityPoint" where
  "mkPoint key lbl entry =
     \<lparr>total = total entry, read = read entry, unread = unread entry, dateKey = key, label = lbl\<rparr>"

text \<open>\<open>for (let offset = timeRangeDays - 1; offset >= 0; offset -= 1)\<close>, with the clock read once.\<close>

function dailyLoop ::
  "date \<Rightarrow> (int \<times> counts) list \<Rightarrow> int \<Rightarrow> dailyActivityPoint list \<Rightarrow> dailyActivityPoint list" where
  "dailyLoop now countsMap offset points =
     (if offset \<ge> 0 then
        (let key = formatDay (subDays now offset);
             entry = (case map_of countsMap key of None \<Rightarrow> emptyCounts | Some e \<Rightarrow> e)
         in dailyLoop now countsMap (offset - 1) (points @ [mkPoint key (MMM_d key) entry]))
      else points)"
  by pat_completeness auto
termination
  by (relation "measure (\<lambda>(now, countsMap, offset, points). nat (offset + 1))") auto

definition dailyActivity ::
  "(string \<Rightarrow> date option) \<Rightarrow> article list option \<Rightarrow> article list \<Rightarrow> date \<Rightarrow>
   int option \<Rightarrow> dailyActivityPoint list" where
  "dailyActivity newDate articles filtered now days =
     (case articles of
        None \<Rightarrow> []
      | Some _ \<Rightarrow>
          (let countsMap = fold (countsStep newDate) filtered []
           in (case days of
                 Some n \<Rightarrow> dailyLoop now countsMap (n - 1) []
               | None \<Rightarrow>
                   map (\<lambda>key. mkPoint key (MMM_d_yyyy key) (the (map_of countsMap key)))
                     (sort (map fst countsMap)))))"

subsection \<open>Longest read streak\<close>

record streakAcc =
  best :: nat
  current :: nat
  prevDate :: "date option"

definition streakStep :: "dailyActivityPoint \<Rightarrow> streakAcc \<Rightarrow> streakAcc" where
  "streakStep day s =
     (let date = midnightOf (dateKey day);
          s = (case prevDate s of
                 None \<Rightarrow> s
               | Some p \<Rightarrow>
                   if mathRound (real_of_int (date - p) / real_of_int msPerDay) > 1
                   then s\<lparr>current := 0\<rparr> else s);
          s = (if read day > 0
               then (let s = s\<lparr>current := current s + 1\<rparr> in s\<lparr>best := max (best s) (current s)\<rparr>)
               else s\<lparr>current := 0\<rparr>)
      in s\<lparr>prevDate := Some date\<rparr>)"

definition longestReadStreak :: "dailyActivityPoint list \<Rightarrow> nat" where
  "longestReadStreak points =
     (if length points = 0 then 0
      else best (fold streakStep points \<lparr>best = 0, current = 0, prevDate = None\<rparr>))"

subsection \<open>Sentiment buckets\<close>

text \<open>
  The server aggregate, without its \<open>daily_trends\<close>, which the buckets do not read. The
  \<open>description\<close> and \<open>className\<close> of a bucket are constant display strings and are left
  out.
\<close>

record sentimentAnalytics =
  sa_positive :: int
  slightly_positive :: int
  sa_neutral :: int
  slightly_negative :: int
  sa_negative :: int
  sa_total :: int

datatype bucketId = Positive | SlightlyPositive | Neutral | SlightlyNegative | Negative

record sentimentBucket =
  bucket_id :: bucketId
  bucket_label :: string
  bucket_value :: int
  percent :: int

text \<open>\<open>.map((bucket) => ({...bucket, percent: totals > 0 ? Math.round((bucket.value / totals) * 100) : 0}))\<close>.\<close>

definition withPercent :: "int \<Rightarrow> bucketId \<times> string \<times> int \<Rightarrow> sentimentBucket" where
  "withPercent totals b =
     (case b of
        (i, l, v) \<Rightarrow>
          \<lparr>bucket_id = i, bucket_label = l, bucket_value = v,
           percent = (if totals > 0 then mathRound (real_of_int v / real_of_int totals * 100) else 0)\<rparr>)"

text \<open>\<open>Object.values(engagement?.fallbackSentiments ?? {}).reduce((sum, value) => sum + value, 0)\<close>.\<close>

definition fallbackSum :: "engagementResult option \<Rightarrow> int" where
  "fallbackSum e =
     (case e of
        None \<Rightarrow> 0
      | Some r \<Rightarrow>
          (let f = fallbackSentiments r
           in int (positive f) + int (slightlyPositive f) + int (neutral f)
              + int (slightlyNegative f) + int (negative f)))"

definition sentimentBuckets ::
  "engagementResult option \<Rightarrow> sentimentAnalytics option \<Rightarrow> sentimentBucket list" where
  "sentimentBuckets e sa =
     (let totals = (case sa of Some a \<Rightarrow> sa_total a | None \<Rightarrow> fallbackSum e);
          fromFallback =
            (case e of
               None \<Rightarrow> []
             | Some r \<Rightarrow>
                 (let fallback = fallbackSentiments r
                  in map (withPercent totals)
                       [(Positive, ''Positive'', int (positive fallback)),
                        (SlightlyPositive, ''Slightly Positive'', int (slightlyPositive fallback)),
                        (Neutral, ''Neutral'', int (neutral fallback)),
                        (SlightlyNegative, ''Slightly Negative'', int (slightlyNegative fallback)),
                        (Negative, ''Negative'', int (negative fallback))]))
      in (case sa of
            None \<Rightarrow> fromFallback
          | Some a \<Rightarrow>
              if sa_total a > 0 then
                map (withPercent totals)
                  [(Positive, ''Positive'', sa_positive a),
                   (SlightlyPositive, ''Slightly Positive'', slightly_positive a),
                   (Neutral, ''Neutral'', sa_neutral a),
                   (SlightlyNegative, ''Slightly Negative'', slightly_negative a),
                   (Negative, ''Negative'', sa_negative a)]
              else fromFallback))"

subsection \<open>Cluster topics\<close>

text \<open>
  \<open>getClusterTopics\<close> counts in a plain object. Its own properties are an association
  list in creation order, and the two places where an object differs from a \<open>Map\<close> are in
  the model:
  \<^item> \<open>Object.entries\<close> lists the keys that are array indices first, in ascending numeric
    order, and the other keys after them in creation order;
  \<^item> \<open>acc[topic]\<close> also finds the properties of \<open>Object.prototype\<close>. For a topic with
    such a name the stored value is a string (or the assignment is ignored), the
    comparator yields \<open>NaN\<close>, and the order of the result is left open by the language.
    \<open>getClusterTopics\<close> is \<open>None\<close> there and \<open>Some\<close> of the returned array otherwise.
\<close>

definition isDigit :: "char \<Rightarrow> bool" where
  "isDigit c = (c \<in> set ''0123456789'')"

definition decimalValue :: "string \<Rightarrow> nat" where
  "decimalValue s = fold (\<lambda>c n. 10 * n + (of_char c - 48)) s 0"

text \<open>A canonical numeric string below \<open>2^32 - 1\<close>.\<close>

definition isArrayIndex :: "string \<Rightarrow> bool" where
  "isArrayIndex s =
     (s \<noteq> [] \<and> list_all isDigit s \<and> (hd s \<noteq> CHR ''0'' \<or> s = ''0'')
      \<and> decimalValue s < 2 ^ 32 - 1)"

definition inheritedProperty :: "string \<Rightarrow> bool" where
  "inheritedProperty s =
     (s \<in> set [''constructor'', ''__proto__'', ''hasOwnProperty'', ''isPrototypeOf'',
               ''propertyIsEnumerable'', ''toLocaleString'', ''toString'', ''valueOf'',
               ''__defineGetter__'', ''__defineSetter__'', ''__lookupGetter__'',
               ''__lookupSetter__''])"

definition objectEntries :: "(string \<times> nat) list \<Rightarrow> (string \<times> nat) list" where
  "objectEntries obj =
     sort_key (\<lambda>e. decimalValue (fst e)) (filter (\<lambda>e. isArrayIndex (fst e)) obj)
     @ filter (\<lambda>e. \<not> isArrayIndex (fst e)) obj"

text \<open>The \<open>forEach\<close> over the member ids: \<open>find\<close> returns the first article of the id.\<close>

definition pushTopics :: "article list \<Rightarrow> int \<Rightarrow> string list \<Rightarrow> string list" where
  "pushTopics articles articleId acc =
     (case find (\<lambda>item. a_id item = articleId) articles of
        None \<Rightarrow> acc
      | Some a \<Rightarrow> (case topics a of None \<Rightarrow> acc | Some ts \<Rightarrow> acc @ ts))"

definition collectTopics :: "int list \<Rightarrow> article list \<Rightarrow> string list" where
  "collectTopics articleIds articles = fold (pushTopics articles) articleIds []"

text \<open>The \<open>reduce\<close>: \<open>acc[topic] = (acc[topic] || 0) + 1\<close>, for topics that are not inherited names.\<close>

definition topicCounts :: "string list \<Rightarrow> (string \<times> nat) list" where
  "topicCounts ts = fold bumpTopic ts []"

definition getClusterTopics :: "int list \<Rightarrow> article list option \<Rightarrow> string list option" where
  "getClusterTopics articleIds articles =
     (case articles of
        None \<Rightarrow> Some []
      | Some as \<Rightarrow>
          (let ts = collectTopics articleIds as
           in if list_ex inheritedProperty ts then None
              else Some (map fst (take 3 (sort_key (\<lambda>e. - int (snd e))
                                            (objectEntries (topicCounts ts)))))))"

section \<open>Specification-level notions and example inputs\<close>

subsection \<open>The threshold table of the sentiment classification\<close>

text \<open>
  The table as the specification writes it, one row per bucket, and the counter of the
  fallback buckets that belongs to a bucket.
\<close>

fun inBucket :: "bucketId \<Rightarrow> real \<Rightarrow> bool" where
  "inBucket Positive score = (score \<ge> 0.5)"
| "inBucket SlightlyPositive score = (0.05 \<le> score \<and> score < 0.5)"
| "inBucket Neutral score = (- 0.05 < score \<and> score < 0.05)"
| "inBucket SlightlyNegative score = (- 0.5 < score \<and> score \<le> - 0.05)"
| "inBucket Negative score = (score \<le> - 0.5)"

fun bucketCount :: "bucketId \<Rightarrow> sentimentCounts \<Rightarrow> nat" where
  "bucketCount Positive b = positive b"
| "bucketCount SlightlyPositive b = slightlyPositive b"
| "bucketCount Neutral b = neutral b"
| "bucketCount SlightlyNegative b = slightlyNegative b"
| "bucketCount Negative b = negative b"

text \<open>An article that carries a score of the bucket.\<close>

definition scoredIn :: "bucketId \<Rightarrow> article \<Rightarrow> bool" where
  "scoredIn i a = (case sentiment_score a of None \<Rightarrow> False | Some score \<Rightarrow> inBucket i score)"

subsection \<open>Entries of a counting map\<close>

definition balanced :: "'a counts_scheme \<Rightarrow> bool" where
  "balanced e = (read e + unread e = total e)"

subsection \<open>Example inputs\<close>

text \<open>
  Day 19732 of the epoch is 2024-01-10. The example clock is noon of that day, and the
  example \<open>Date\<close> constructor knows a handful of ISO strings.
\<close>

definition exampleNow :: date where
  "exampleNow = midnightOf 19732 + 12 * 3600000"

definition exampleNewDate :: "string \<Rightarrow> date option" where
  "exampleNewDate s =
     (if s = ''2024-01-10T09:00:00'' then Some (midnightOf 19732 + 9 * 3600000)
      else if s = ''2024-01-09T09:00:00'' then Some (midnightOf 19731 + 9 * 3600000)
      else if s = ''2024-01-04T12:00:00'' then Some (midnightOf 19726 + 12 * 3600000)
      else if s = ''2024-01-11T08:00:00'' then Some (midnightOf 19733 + 8 * 3600000)
      else None)"

definition exampleArticle ::
  "int \<Rightarrow> int \<Rightarrow> string \<Rightarrow> bool \<Rightarrow> real option \<Rightarrow> string list option \<Rightarrow> article" where
  "exampleArticle i f d r sc ts =
     \<lparr>a_id = i, feed_id = f, published_date = Some d, created_at = d, cluster_id = None,
      sentiment_score = sc, topics = ts, is_read = r, is_bookmarked = False\<rparr>"

text \<open>Two articles of today, one scored 0.6 and read, one scored -0.6 and unread.\<close>

definition twoScored :: "article list" where
  "twoScored =
     [exampleArticle 1 1 ''2024-01-10T09:00:00'' True (Some 0.6) None,
      exampleArticle 2 1 ''2024-01-10T09:00:00'' False (Some (- 0.6)) None]"

subsection \<open>Feed names\<close>



subsection \<open>Inputs for the sentiment resolver and the window\<close>

text \<open>A server aggregate that counts nothing.\<close>

definition emptyAggregate :: sentimentAnalytics where
  "emptyAggregate =
     \<lparr>sa_positive = 0, slightly_positive = 0, sa_neutral = 0, slightly_negative = 0,
      sa_negative = 0, sa_total = 0\<rparr>"

definition twoScoredEngagement :: "engagementResult option" where
  "twoScoredEngagement =
     engagement exampleNewDate (Some []) (Some twoScored) twoScored (Some 7)"

text \<open>An article of noon of 2024-01-04, six days before the example clock.\<close>

definition firstDayArticle :: article where
  "firstDayArticle = exampleArticle 3 1 ''2024-01-04T12:00:00'' False None None"

subsection \<open>Counting under a key\<close>

text \<open>
  The counts of the elements of a list that have a given key, and the step of a counting
  pass in general: both counting maps of the source (per feed, per day) are folds of it.
\<close>

definition tally :: "('a \<Rightarrow> 'k option) \<Rightarrow> ('a \<Rightarrow> bool) \<Rightarrow> 'a list \<Rightarrow> 'k \<Rightarrow> counts" where
  "tally key rd xs k =
     \<lparr>total = length [a \<leftarrow> xs. key a = Some k],
      read = length [a \<leftarrow> xs. key a = Some k \<and> rd a],
      unread = length [a \<leftarrow> xs. key a = Some k \<and> \<not> rd a]\<rparr>"

text \<open>The calendar day of an article, when its date parses.\<close>

definition dayOfArticle :: "(string \<Rightarrow> date option) \<Rightarrow> article \<Rightarrow> int option" where
  "dayOfArticle newDate a = map_option formatDay (parseArticleDate newDate a)"


text \<open>The point of a day in a finite window.\<close>

definition dayPoint :: "(int \<times> counts) list \<Rightarrow> int \<Rightarrow> dailyActivityPoint" where
  "dayPoint countsMap d =
     mkPoint d (MMM_d d) (case map_of countsMap d of None \<Rightarrow> emptyCounts | Some e \<Rightarrow> e)"

definition countStep ::
  "('a \<Rightarrow> 'k option) \<Rightarrow> ('a \<Rightarrow> bool) \<Rightarrow> 'a \<Rightarrow> ('k \<times> counts) list \<Rightarrow> ('k \<times> counts) list" where
  "countStep key rd a m = (case key a of None \<Rightarrow> m | Some k \<Rightarrow> bumpCounts k (rd a) m)"

text \<open>
  Scenario 2 of the specification: one read article of today, one unread and one read
  article of yesterday. And an article of tomorrow morning.
\<close>

definition threeArticles :: "article list" where
  "threeArticles =
     [exampleArticle 1 1 ''2024-01-10T09:00:00'' True None None,
      exampleArticle 2 1 ''2024-01-09T09:00:00'' False None None,
      exampleArticle 3 1 ''2024-01-09T09:00:00'' True None None]"


subsection \<open>Runs of read days\<close>

text \<open>
  A run is a stretch of successive points of the series in which every point has a read
  article and no point is more than one day after the point before it. \<open>isMaxLen P n\<close>
  says that \<open>n\<close> is the greatest length of a list with the property \<open>P\<close>.
\<close>

definition goodRun :: "dailyActivityPoint list \<Rightarrow> bool" where
  "goodRun seg =
     (list_all (\<lambda>p. read p > 0) seg \<and> successively (\<lambda>p q. dateKey q - dateKey p \<le> 1) seg)"

definition isMaxLen :: "('a list \<Rightarrow> bool) \<Rightarrow> nat \<Rightarrow> bool" where
  "isMaxLen P n = ((\<exists>seg. P seg \<and> length seg = n) \<and> (\<forall>seg. P seg \<longrightarrow> length seg \<le> n))"

text \<open>A series of consecutive days from a first day, with the given read counts.\<close>

definition readsFrom :: "int \<Rightarrow> nat list \<Rightarrow> dailyActivityPoint list" where
  "readsFrom d rs =
     map (\<lambda>(i, r). \<lparr>total = r, read = r, unread = 0, dateKey = d + int i, label = MMM_d (d + int i)\<rparr>)
       (enumerate 0 rs)"

definition exampleWeek :: "dailyActivityPoint list" where
  "exampleWeek = readsFrom 19726 [1, 1, 0, 1, 1, 1, 0]"

subsection \<open>Cluster topics\<close>

text \<open>The topics a member id contributes: those of the first article of that id, if any.\<close>

definition memberTopics :: "article list \<Rightarrow> int \<Rightarrow> string list" where
  "memberTopics articles articleId =
     (case find (\<lambda>item. a_id item = articleId) articles of
        None \<Rightarrow> []
      | Some a \<Rightarrow> (case topics a of None \<Rightarrow> [] | Some ts \<Rightarrow> ts))"

text \<open>The distinct elements of a list in the order of their first occurrence.\<close>

primrec firstSeen :: "'a list \<Rightarrow> 'a list" where
  "firstSeen [] = []"
| "firstSeen (x # xs) = x # removeAll x (firstSeen xs)"

text \<open>
  The result as the specification describes it: count the frequency of each topic, sort
  descending by count with ties in first-seen order (a stable sort over the accumulation
  order), and return the first three topic strings.
\<close>

definition specTopTopics :: "string list \<Rightarrow> string list" where
  "specTopTopics ts =
     map fst (take 3 (sort_key (\<lambda>e. - int (snd e))
                        (map (\<lambda>t. (t, count_list ts t)) (firstSeen ts))))"

text \<open>Articles that only matter for their topics.\<close>

definition topicArticle :: "int \<Rightarrow> string list \<Rightarrow> article" where
  "topicArticle i ts = exampleArticle i 1 ''2024-01-10T09:00:00'' False None (Some ts)"

definition yearTopicArticles :: "article list" where
  "yearTopicArticles = [topicArticle 1 [''AI'', ''2024'']]"

text \<open>Scenario 5 of the specification.\<close>

definition scenarioArticles :: "article list" where
  "scenarioArticles = [topicArticle 1 [''AI'', ''Tech''], topicArticle 2 [''AI'', ''Climate'']]"

definition fourTopicArticles :: "article list" where
  "fourTopicArticles =
     [topicArticle 1 [''A''], topicArticle 2 [''B''], topicArticle 3 [''C''], topicArticle 4 [''D'']]"

section \<open>Properties\<close>

subsection \<open>The engagement pass, field by field\<close>

lemma step_readCount:
  "acc_readCount (engagementStep newDate a s) = acc_readCount s + (if is_read a then 1 else 0)"
  by (simp add: engagementStep_def Let_def split: option.splits)

lemma step_unreadCount:
  "acc_unreadCount (engagementStep newDate a s) = acc_unreadCount s + (if is_read a then 0 else 1)"
  by (simp add: engagementStep_def Let_def split: option.splits)

lemma step_feedTotals:
  "acc_feedTotals (engagementStep newDate a s) =
   bumpCounts (feed_id a) (is_read a) (acc_feedTotals s)"
  by (simp add: engagementStep_def Let_def split: option.splits)

lemma step_sentimentBuckets:
  "acc_sentimentBuckets (engagementStep newDate a s) =
   (case sentiment_score a of
      None \<Rightarrow> acc_sentimentBuckets s
    | Some score \<Rightarrow> addSentiment score (acc_sentimentBuckets s))"
  by (simp add: engagementStep_def Let_def split: option.splits)

lemma engagement_Some:
  "engagement newDate feeds articles filtered days = Some e \<Longrightarrow>
   \<exists>fs as. feeds = Some fs \<and> articles = Some as \<and>
     e_total e = length filtered \<and>
     readCount e = acc_readCount (fold (engagementStep newDate) filtered engagementInit) \<and>
     unreadCount e = acc_unreadCount (fold (engagementStep newDate) filtered engagementInit) \<and>
     feedPerformance e =
       rankFeeds fs (acc_feedTotals (fold (engagementStep newDate) filtered engagementInit)) \<and>
     fallbackSentiments e =
       acc_sentimentBuckets (fold (engagementStep newDate) filtered engagementInit)"
  by (auto simp: engagement_def Let_def split: option.splits)

lemma engagement_defined:
  "\<exists>e. engagement newDate (Some fs) (Some as) filtered days = Some e"
  by (simp add: engagement_def Let_def)

subsection \<open>Counting maps\<close>

lemma tally_none: "\<forall>a \<in> set xs. key a \<noteq> Some k \<Longrightarrow> tally key rd xs k = emptyCounts"
  by (simp add: tally_def emptyCounts_def)

lemma tally_snoc_other: "key a \<noteq> Some k \<Longrightarrow> tally key rd (xs @ [a]) k = tally key rd xs k"
  by (simp add: tally_def)

lemma tally_snoc_same:
  "key a = Some k \<Longrightarrow> tally key rd (xs @ [a]) k = countArticle (rd a) (tally key rd xs k)"
  by (simp add: tally_def countArticle_def Let_def)

lemma map_of_bumpCounts:
  "map_of (bumpCounts k r m) =
   (map_of m)(k \<mapsto> countArticle r (case map_of m k of None \<Rightarrow> emptyCounts | Some e \<Rightarrow> e))"
  by (simp add: bumpCounts_def update_conv')


lemma fold_bump_lookup:
  "map_of (fold (countStep key rd) xs []) k =
   (if \<exists>a \<in> set xs. key a = Some k then Some (tally key rd xs k) else None)"
proof (induction xs rule: rev_induct)
  case Nil
  then show ?case by simp
next
  case (snoc a xs)
  let ?m = "fold (countStep key rd) xs []"
  have old: "(case map_of ?m k of None \<Rightarrow> emptyCounts | Some e \<Rightarrow> e) = tally key rd xs k"
    using snoc.IH by (auto simp: tally_none)
  have step: "fold (countStep key rd) (xs @ [a]) [] = countStep key rd a ?m" by simp
  show ?case
  proof (cases "key a")
    case None
    then have "countStep key rd a ?m = ?m" by (simp add: countStep_def)
    then show ?thesis using None snoc.IH by (simp add: tally_snoc_other)
  next
    case (Some k')
    then have m': "countStep key rd a ?m = bumpCounts k' (rd a) ?m" by (simp add: countStep_def)
    show ?thesis
    proof (cases "k' = k")
      case True
      have "map_of (bumpCounts k (rd a) ?m) k = Some (countArticle (rd a) (tally key rd xs k))"
        by (simp only: map_of_bumpCounts old fun_upd_same)
      then show ?thesis using Some True by (simp add: m' tally_snoc_same)
    next
      case False
      have "map_of (bumpCounts k' (rd a) ?m) k = map_of ?m k"
        using False by (simp add: map_of_bumpCounts)
      then show ?thesis using Some False snoc.IH by (simp add: m' tally_snoc_other)
    qed
  qed
qed


subsection \<open>Sentiment classification\<close>

lemma addSentiment_bucket:
  "bucketCount i (addSentiment score b) = bucketCount i b + (if inBucket i score then 1 else 0)"
  by (cases i) (simp_all add: addSentiment_def)

lemma step_bucket:
  "bucketCount i (acc_sentimentBuckets (engagementStep newDate a s)) =
   bucketCount i (acc_sentimentBuckets s) + (if scoredIn i a then 1 else 0)"
  by (simp add: step_sentimentBuckets scoredIn_def addSentiment_bucket split: option.splits)

lemma fold_bucket:
  "bucketCount i (acc_sentimentBuckets (fold (engagementStep newDate) as s)) =
   bucketCount i (acc_sentimentBuckets s) + length (filter (scoredIn i) as)"
  by (induction as arbitrary: s) (simp_all add: step_bucket)

lemma one_bucket: "\<exists>!i. inBucket i score"
proof -
  consider "score \<ge> 0.5" | "0.05 \<le> score \<and> score < 0.5" | "- 0.05 < score \<and> score < 0.05"
    | "- 0.5 < score \<and> score \<le> - 0.05" | "score \<le> - 0.5" by linarith
  then show ?thesis
  proof cases
    case 1 then show ?thesis by (intro ex1I[of _ Positive]) (simp, case_tac i, auto)
  next
    case 2 then show ?thesis by (intro ex1I[of _ SlightlyPositive]) (simp, case_tac i, auto)
  next
    case 3 then show ?thesis by (intro ex1I[of _ Neutral]) (simp, case_tac i, auto)
  next
    case 4 then show ?thesis by (intro ex1I[of _ SlightlyNegative]) (simp, case_tac i, auto)
  next
    case 5 then show ?thesis by (intro ex1I[of _ Negative]) (simp, case_tac i, auto)
  qed
qed

text \<open>
  Claim C6. Every score lies in exactly one row of the threshold table, and after the
  engagement pass the fallback counter of each bucket is the number of filtered articles
  that carry a score of that row: Positive for a score of at least 0.5, Slightly Positive
  from 0.05 up to but not including 0.5, Neutral strictly between -0.05 and 0.05,
  Slightly Negative above -0.5 up to and including -0.05, Negative for a score of at most
  -0.5. Articles without a score are in no counter.
\<close>

theorem fallback_classification_by_thresholds:
  assumes "engagement newDate feeds articles filtered days = Some e"
  shows "bucketCount i (fallbackSentiments e) = length (filter (scoredIn i) filtered)
         \<and> (\<exists>!j. inBucket j score)"
proof -
  from engagement_Some[OF assms] have
    "fallbackSentiments e =
       acc_sentimentBuckets (fold (engagementStep newDate) filtered engagementInit)"
    by blast
  then have "bucketCount i (fallbackSentiments e) =
      bucketCount i (acc_sentimentBuckets engagementInit) + length (filter (scoredIn i) filtered)"
    by (simp only: fold_bucket)
  moreover have "bucketCount i (acc_sentimentBuckets engagementInit) = 0"
    by (cases i) (simp_all add: engagementInit_def)
  ultimately show ?thesis using one_bucket by simp
qed

theorem fallback_classification_by_thresholds_witness:
  "\<exists>e. engagement exampleNewDate (Some []) (Some twoScored) twoScored (Some 7) = Some e
       \<and> bucketCount Positive (fallbackSentiments e) = 1
       \<and> bucketCount Negative (fallbackSentiments e) = 1
       \<and> bucketCount Neutral (fallbackSentiments e) = 0"
proof -
  obtain e where e: "engagement exampleNewDate (Some []) (Some twoScored) twoScored (Some 7) = Some e"
    using engagement_defined by blast
  have "length (filter (scoredIn Positive) twoScored) = 1"
       "length (filter (scoredIn Negative) twoScored) = 1"
       "length (filter (scoredIn Neutral) twoScored) = 0"
    by (simp_all add: twoScored_def scoredIn_def exampleArticle_def)
  with fallback_classification_by_thresholds[OF e, of Positive 0]
    fallback_classification_by_thresholds[OF e, of Negative 0]
    fallback_classification_by_thresholds[OF e, of Neutral 0] e
  show ?thesis by simp
qed

subsection \<open>Read and unread partition every aggregate\<close>

lemma set_update_subset: "set (AList.update k v al) \<subseteq> insert (k, v) (set al)"
  by (induction al) auto

lemma balanced_countArticle: "balanced e \<Longrightarrow> balanced (countArticle r e)"
  by (simp add: balanced_def countArticle_def Let_def)

lemma balanced_emptyCounts: "balanced emptyCounts"
  by (simp add: balanced_def emptyCounts_def)

lemma bumpCounts_balanced:
  assumes "\<forall>e \<in> snd ` set m. balanced e"
  shows "\<forall>e \<in> snd ` set (bumpCounts k r m). balanced e"
proof -
  let ?old = "case map_of m k of None \<Rightarrow> emptyCounts | Some e \<Rightarrow> e"
  have "balanced ?old"
    using assms by (auto simp: balanced_emptyCounts split: option.splits dest!: map_of_SomeD
        intro: rev_image_eqI)
  then have "balanced (countArticle r ?old)" by (rule balanced_countArticle)
  moreover have "set (bumpCounts k r m) \<subseteq> insert (k, countArticle r ?old) (set m)"
    unfolding bumpCounts_def by (rule set_update_subset)
  ultimately show ?thesis using assms by auto
qed

lemma fold_read_unread:
  "acc_readCount (fold (engagementStep newDate) as s)
     + acc_unreadCount (fold (engagementStep newDate) as s)
   = acc_readCount s + acc_unreadCount s + length as"
  by (induction as arbitrary: s) (simp_all add: step_readCount step_unreadCount)

lemma fold_feedTotals_balanced:
  "\<forall>e \<in> snd ` set (acc_feedTotals s). balanced e \<Longrightarrow>
   \<forall>e \<in> snd ` set (acc_feedTotals (fold (engagementStep newDate) as s)). balanced e"
proof (induction as arbitrary: s)
  case Nil
  then show ?case by simp
next
  case (Cons a as)
  have "\<forall>e \<in> snd ` set (bumpCounts (feed_id a) (is_read a) (acc_feedTotals s)). balanced e"
    using Cons.prems by (rule bumpCounts_balanced)
  then have "\<forall>e \<in> snd ` set (acc_feedTotals (engagementStep newDate a s)). balanced e"
    by (simp only: step_feedTotals)
  then have "\<forall>e \<in> snd ` set (acc_feedTotals
      (fold (engagementStep newDate) as (engagementStep newDate a s))). balanced e"
    by (rule Cons.IH)
  then show ?case by (simp only: fold_simps comp_apply)
qed

lemma toPerformance_sel:
  "total (toPerformance fs (k, e)) = total e"
  "read (toPerformance fs (k, e)) = read e"
  "unread (toPerformance fs (k, e)) = unread e"
  "feedId (toPerformance fs (k, e)) = k"
  "name (toPerformance fs (k, e)) = feedName (feedsById fs k)"
  "active (toPerformance fs (k, e)) = feedActive (feedsById fs k)"
  "readRate (toPerformance fs (k, e)) = percentOf (read e) (total e)"
  by (simp_all add: toPerformance_def)

lemma rankFeeds_subset:
  "set (rankFeeds fs m) \<subseteq> {p \<in> toPerformance fs ` set m. total p > 0}"
  unfolding rankFeeds_def by (rule subset_trans[OF set_take_subset]) auto

lemma rankFeeds_balanced:
  assumes "\<forall>e \<in> snd ` set m. balanced e" and "p \<in> set (rankFeeds fs m)"
  shows "read p + unread p = total p"
proof -
  from assms(2) rankFeeds_subset have "p \<in> toPerformance fs ` set m" by blast
  then obtain ke where ke: "ke \<in> set m" "p = toPerformance fs ke" by blast
  obtain k e where [simp]: "ke = (k, e)" by (cases ke)
  have "balanced e" using assms(1) ke(1) by force
  then show ?thesis using ke(2) by (simp add: toPerformance_sel balanced_def)
qed

text \<open>
  Claim C7. Whenever the engagement aggregate exists, its read count and unread count
  add up to its total, the total is the number of filtered articles, and in every
  feed-performance entry read and unread add up to the entry's total.
\<close>

theorem engagement_read_unread_total:
  assumes "engagement newDate feeds articles filtered days = Some e"
  shows "readCount e + unreadCount e = e_total e \<and> e_total e = length filtered \<and>
         (\<forall>p \<in> set (feedPerformance e). read p + unread p = total p)"
proof -
  let ?s = "fold (engagementStep newDate) filtered engagementInit"
  from engagement_Some[OF assms] obtain fs where
    t: "e_total e = length filtered" and
    r: "readCount e = acc_readCount ?s" and
    u: "unreadCount e = acc_unreadCount ?s" and
    f: "feedPerformance e = rankFeeds fs (acc_feedTotals ?s)"
    by blast
  have "acc_readCount ?s + acc_unreadCount ?s = length filtered"
    by (simp add: fold_read_unread engagementInit_def)
  then have 1: "readCount e + unreadCount e = e_total e" using r u t by simp
  have b: "\<forall>e \<in> snd ` set (acc_feedTotals ?s). balanced e"
    by (rule fold_feedTotals_balanced) (simp add: engagementInit_def)
  have 2: "\<forall>p \<in> set (feedPerformance e). read p + unread p = total p"
  proof
    fix p assume "p \<in> set (feedPerformance e)"
    then have "p \<in> set (rankFeeds fs (acc_feedTotals ?s))" using f by simp
    with b show "read p + unread p = total p" by (rule rankFeeds_balanced)
  qed
  from 1 t 2 show ?thesis by blast
qed

theorem engagement_read_unread_total_witness:
  "\<exists>e. engagement exampleNewDate (Some []) (Some twoScored) twoScored (Some 7) = Some e
       \<and> readCount e + unreadCount e = 2 \<and> e_total e = 2
       \<and> list_all (\<lambda>p. read p + unread p = total p) (feedPerformance e)"
proof -
  obtain e where e: "engagement exampleNewDate (Some []) (Some twoScored) twoScored (Some 7) = Some e"
    using engagement_defined by blast
  have "length twoScored = 2" by (simp add: twoScored_def)
  with engagement_read_unread_total[OF e] e show ?thesis by (simp add: list_all_iff)
qed

subsection \<open>Feed performance\<close>









lemma fold_twoScored:
  "fold (engagementStep exampleNewDate) twoScored engagementInit =
   \<lparr>acc_readCount = 1, acc_bookmarkCount = 0, acc_unreadCount = 1, acc_uniqueDaySet = [19732],
      acc_topicCounts = [], acc_feedTotals = [(1, \<lparr>total = 2, read = 1, unread = 1\<rparr>)],
      acc_sentimentBuckets =
        \<lparr>positive = 1, slightlyPositive = 0, neutral = 0, slightlyNegative = 0, negative = 1\<rparr>\<rparr>"
  by (simp add: twoScored_def exampleArticle_def engagementStep_def engagementInit_def
      parseArticleDate_def exampleNewDate_def formatDay_def midnightOf_def msPerDay_def
      bumpCounts_def countArticle_def emptyCounts_def addSentiment_def Let_def)


subsection \<open>Sentiment buckets\<close>

lemma twoScoredEngagement_value:
  "twoScoredEngagement =
     Some \<lparr>e_total = 2, readCount = 1, unreadCount = 1, bookmarkCount = 0, e_readRate = 50,
       averagePerDay = 2, activeFeeds = 0, uniqueDays = 1, topTopics = [],
       feedPerformance =
         [\<lparr>total = 2, read = 1, unread = 1, feedId = 1, name = ''Untitled'', active = False,
           readRate = 50\<rparr>],
       fallbackSentiments =
         \<lparr>positive = 1, slightlyPositive = 0, neutral = 0, slightlyNegative = 0, negative = 1\<rparr>\<rparr>"
proof -
  have "length twoScored = 2" by (simp add: twoScored_def)
  then show ?thesis
    by (simp add: twoScoredEngagement_def engagement_def fold_twoScored Let_def percentOf_def
        mathRound_def rankFeeds_def toPerformance_def feedsById_def feedName_def feedActive_def)
qed

text \<open>
  Without a server aggregate the percentages are taken of the sum of the fallback
  counters; with an aggregate whose total is not positive the values are the fallback
  counters and every percentage is 0, whatever the counters are.
\<close>

lemma sentiment_percent_without_aggregate:
  "map percent (sentimentBuckets (Some e) None) =
   map (\<lambda>v. if fallbackSum (Some e) > 0
              then mathRound (real_of_int v / real_of_int (fallbackSum (Some e)) * 100) else 0)
     (map bucket_value (sentimentBuckets (Some e) None))"
  by (simp add: sentimentBuckets_def withPercent_def Let_def)

lemma sentiment_percent_nonpositive_aggregate:
  "sa_total a \<le> 0 \<Longrightarrow>
   map percent (sentimentBuckets (Some e) (Some a)) = [0, 0, 0, 0, 0]
   \<and> map bucket_value (sentimentBuckets (Some e) (Some a)) =
       [int (positive (fallbackSentiments e)), int (slightlyPositive (fallbackSentiments e)),
        int (neutral (fallbackSentiments e)), int (slightlyNegative (fallbackSentiments e)),
        int (negative (fallbackSentiments e))]"
  by (simp add: sentimentBuckets_def withPercent_def Let_def)

text \<open>
  Claim C1, at an input where it fails. Two filtered articles are scored 0.6 and -0.6, so
  the fallback counters are Positive 1 and Negative 1 and their sum is 2. With a server
  aggregate of total 0 the resolver outputs these counters with 0 percent each, where the
  claim asks for 50 percent; without an aggregate it outputs 50 percent.
\<close>

theorem sentiment_percent_with_empty_aggregate:
  "sentimentBuckets twoScoredEngagement (Some emptyAggregate) =
     [\<lparr>bucket_id = Positive, bucket_label = ''Positive'', bucket_value = 1, percent = 0\<rparr>,
      \<lparr>bucket_id = SlightlyPositive, bucket_label = ''Slightly Positive'', bucket_value = 0,
        percent = 0\<rparr>,
      \<lparr>bucket_id = Neutral, bucket_label = ''Neutral'', bucket_value = 0, percent = 0\<rparr>,
      \<lparr>bucket_id = SlightlyNegative, bucket_label = ''Slightly Negative'', bucket_value = 0,
        percent = 0\<rparr>,
      \<lparr>bucket_id = Negative, bucket_label = ''Negative'', bucket_value = 1, percent = 0\<rparr>]
   \<and> sentimentBuckets twoScoredEngagement None =
     [\<lparr>bucket_id = Positive, bucket_label = ''Positive'', bucket_value = 1, percent = 50\<rparr>,
      \<lparr>bucket_id = SlightlyPositive, bucket_label = ''Slightly Positive'', bucket_value = 0,
        percent = 0\<rparr>,
      \<lparr>bucket_id = Neutral, bucket_label = ''Neutral'', bucket_value = 0, percent = 0\<rparr>,
      \<lparr>bucket_id = SlightlyNegative, bucket_label = ''Slightly Negative'', bucket_value = 0,
        percent = 0\<rparr>,
      \<lparr>bucket_id = Negative, bucket_label = ''Negative'', bucket_value = 1, percent = 50\<rparr>]"
  by (simp add: twoScoredEngagement_value sentimentBuckets_def fallbackSum_def withPercent_def
      emptyAggregate_def mathRound_def Let_def)

subsection \<open>The time window\<close>

lemma null_cutoff_keeps_all:
  "filteredArticles newDate (Some as) (cutoffDate now None) = as"
  by (simp add: filteredArticles_def cutoffDate_def keepArticle_def)


text \<open>
  Claim C2, at an input where it fails. The clock is noon of 2024-01-10 and the window is
  7 days, so its first calendar day is 2024-01-04 (day 19726). The cut-off is the last
  millisecond of that day; an article of noon of that day parses, falls on the first day
  of the window, and is filtered out.
\<close>

theorem first_window_day_excluded:
  "cutoffDate exampleNow (Some 7) = Some (midnightOf 19726 + 86399999)
   \<and> parseArticleDate exampleNewDate firstDayArticle = Some (midnightOf 19726 + 12 * 3600000)
   \<and> formatDay (midnightOf 19726 + 12 * 3600000) = formatDay exampleNow - (7 - 1)
   \<and> filteredArticles exampleNewDate (Some [firstDayArticle]) (cutoffDate exampleNow (Some 7)) = []"
  by (simp add: cutoffDate_def endOfToday_def subDays_def exampleNow_def formatDay_def
      midnightOf_def msPerDay_def parseArticleDate_def firstDayArticle_def exampleArticle_def
      exampleNewDate_def filteredArticles_def keepArticle_def)

subsection \<open>Daily activity\<close>

lemma countsStep_key: "countsStep newDate = countStep (dayOfArticle newDate) is_read"
  by (rule ext, rule ext)
     (simp add: countsStep_def countStep_def dayOfArticle_def split: option.splits)

lemma countsMap_lookup:
  "map_of (fold (countsStep newDate) xs []) k =
   (if \<exists>a \<in> set xs. dayOfArticle newDate a = Some k
    then Some (tally (dayOfArticle newDate) is_read xs k) else None)"
  by (simp only: countsStep_key fold_bump_lookup)


lemma countsMap_default:
  "(case map_of (fold (countsStep newDate) xs []) k of None \<Rightarrow> emptyCounts | Some e \<Rightarrow> e)
   = tally (dayOfArticle newDate) is_read xs k"
  by (simp add: countsMap_lookup tally_none)

subsection \<open>The loop over the days of a finite window\<close>

lemma msPerDay_pos: "msPerDay > 0"
  by (simp add: msPerDay_def)

lemma formatDay_subDays: "formatDay (subDays now n) = formatDay now - n"
proof -
  have "msPerDay \<noteq> 0" using msPerDay_pos by simp
  then have "(now + (- n) * msPerDay) div msPerDay = (- n) + now div msPerDay"
    by (rule div_mult_self1)
  then show ?thesis by (simp add: formatDay_def subDays_def)
qed

declare dailyLoop.simps [simp del]

lemma dailyLoop_unfold:
  "dailyLoop now countsMap offset points =
     (if offset \<ge> 0
      then dailyLoop now countsMap (offset - 1)
             (points @ [dayPoint countsMap (formatDay now - offset)])
      else points)"
  by (subst dailyLoop.simps) (simp only: Let_def formatDay_subDays dayPoint_def)

lemma dailyLoop_closed:
  "dailyLoop now countsMap offset points =
   points @ map (dayPoint countsMap) [formatDay now - offset .. formatDay now]"
proof (induction now countsMap offset points rule: dailyLoop.induct)
  case (1 now countsMap offset points)
  show ?case
  proof (cases "offset \<ge> 0")
    case True
    let ?d = "formatDay now - offset"
    let ?p = "mkPoint (formatDay (subDays now offset)) (MMM_d (formatDay (subDays now offset)))
                (case map_of countsMap (formatDay (subDays now offset)) of
                   None \<Rightarrow> emptyCounts | Some e \<Rightarrow> e)"
    have p: "?p = dayPoint countsMap ?d"
      by (simp only: formatDay_subDays dayPoint_def)
    have "dailyLoop now countsMap (offset - 1) (points @ [?p]) =
          (points @ [?p]) @ map (dayPoint countsMap) [formatDay now - (offset - 1) .. formatDay now]"
      using True by (rule "1.IH") (rule refl)+
    then have IH: "dailyLoop now countsMap (offset - 1) (points @ [dayPoint countsMap ?d]) =
          (points @ [dayPoint countsMap ?d])
            @ map (dayPoint countsMap) [formatDay now - (offset - 1) .. formatDay now]"
      by (simp only: p)
    have eq: "formatDay now - (offset - 1) = ?d + 1" by simp
    have up: "[?d .. formatDay now] = ?d # [?d + 1 .. formatDay now]"
      using True by (intro upto_rec1) simp
    have "dailyLoop now countsMap offset points =
          dailyLoop now countsMap (offset - 1) (points @ [dayPoint countsMap ?d])"
      using True by (subst dailyLoop_unfold) simp
    also note IH
    also have "(points @ [dayPoint countsMap ?d])
            @ map (dayPoint countsMap) [formatDay now - (offset - 1) .. formatDay now]
          = points @ map (dayPoint countsMap) [?d .. formatDay now]"
      by (simp only: eq up list.map append_assoc append_Cons append_Nil)
    finally show ?thesis .
  next
    case False
    then have "dailyLoop now countsMap offset points = points"
      by (subst dailyLoop_unfold) simp
    moreover have "[formatDay now - offset .. formatDay now] = []" using False by simp
    ultimately show ?thesis by simp
  qed
qed

lemma dailyActivity_finite:
  "dailyActivity newDate (Some as) filtered now (Some n) =
   map (dayPoint (fold (countsStep newDate) filtered []))
     [formatDay now - (n - 1) .. formatDay now]"
  by (simp add: dailyActivity_def Let_def dailyLoop_closed)

lemma dayPoint_sel:
  "dateKey (dayPoint (fold (countsStep newDate) xs []) d) = d"
  "total (dayPoint (fold (countsStep newDate) xs []) d) =
     length [a \<leftarrow> xs. dayOfArticle newDate a = Some d]"
  "read (dayPoint (fold (countsStep newDate) xs []) d) =
     length [a \<leftarrow> xs. dayOfArticle newDate a = Some d \<and> is_read a]"
  "unread (dayPoint (fold (countsStep newDate) xs []) d) =
     length [a \<leftarrow> xs. dayOfArticle newDate a = Some d \<and> \<not> is_read a]"
  by (simp_all add: dayPoint_def countsMap_default mkPoint_def tally_def)

lemma formatDay_exampleNow: "formatDay exampleNow = 19732"
  by (simp add: formatDay_def exampleNow_def midnightOf_def msPerDay_def)

lemma dailyActivity_keys:
  "map dateKey (dailyActivity newDate (Some as) filtered now (Some n)) =
   [formatDay now - (n - 1) .. formatDay now]"
  by (simp add: dailyActivity_finite dayPoint_sel(1) comp_def)

text \<open>
  Claim C4. For a window of \<open>N\<close> days the series has exactly \<open>N\<close> points; their day
  keys are the calendar days from \<open>today - (N - 1)\<close> through today, one each, strictly
  ascending and without duplicates; every point carries the numbers of all, read and unread
  filtered articles of its day, and a day with no filtered article carries zeros.
\<close>

theorem daily_activity_finite_window:
  assumes "N \<ge> 0"
  shows "int (length (dailyActivity newDate (Some as) filtered now (Some N))) = N
     \<and> map dateKey (dailyActivity newDate (Some as) filtered now (Some N))
         = [formatDay now - (N - 1) .. formatDay now]
     \<and> sorted_wrt (<) (map dateKey (dailyActivity newDate (Some as) filtered now (Some N)))
     \<and> distinct (map dateKey (dailyActivity newDate (Some as) filtered now (Some N)))
     \<and> (\<forall>p \<in> set (dailyActivity newDate (Some as) filtered now (Some N)).
           total p = length [a \<leftarrow> filtered. dayOfArticle newDate a = Some (dateKey p)]
         \<and> read p = length [a \<leftarrow> filtered. dayOfArticle newDate a = Some (dateKey p) \<and> is_read a]
         \<and> unread p = length [a \<leftarrow> filtered. dayOfArticle newDate a = Some (dateKey p) \<and> \<not> is_read a]
         \<and> ((\<forall>a \<in> set filtered. dayOfArticle newDate a \<noteq> Some (dateKey p))
              \<longrightarrow> read p = 0 \<and> unread p = 0 \<and> total p = 0))"
proof -
  let ?pts = "dailyActivity newDate (Some as) filtered now (Some N)"
  have keys: "map dateKey ?pts = [formatDay now - (N - 1) .. formatDay now]"
    by (rule dailyActivity_keys)
  have "length ?pts = length (map dateKey ?pts)" by simp
  also have "\<dots> = nat N" by (simp add: keys)
  finally have len: "int (length ?pts) = N" using assms by simp
  have srt: "sorted_wrt (<) (map dateKey ?pts)" "distinct (map dateKey ?pts)"
    by (simp_all only: keys sorted_wrt_upto distinct_upto)
  have pt: "\<forall>p \<in> set ?pts.
           total p = length [a \<leftarrow> filtered. dayOfArticle newDate a = Some (dateKey p)]
         \<and> read p = length [a \<leftarrow> filtered. dayOfArticle newDate a = Some (dateKey p) \<and> is_read a]
         \<and> unread p = length [a \<leftarrow> filtered. dayOfArticle newDate a = Some (dateKey p) \<and> \<not> is_read a]"
    by (auto simp: dailyActivity_finite dayPoint_sel)
  have zero: "\<forall>p \<in> set ?pts. (\<forall>a \<in> set filtered. dayOfArticle newDate a \<noteq> Some (dateKey p))
              \<longrightarrow> read p = 0 \<and> unread p = 0 \<and> total p = 0"
  proof (intro ballI impI)
    fix p assume p: "p \<in> set ?pts"
      and none: "\<forall>a \<in> set filtered. dayOfArticle newDate a \<noteq> Some (dateKey p)"
    from none have "[a \<leftarrow> filtered. dayOfArticle newDate a = Some (dateKey p)] = []"
      "[a \<leftarrow> filtered. dayOfArticle newDate a = Some (dateKey p) \<and> is_read a] = []"
      "[a \<leftarrow> filtered. dayOfArticle newDate a = Some (dateKey p) \<and> \<not> is_read a] = []"
      by (simp_all add: filter_empty_conv)
    with pt p show "read p = 0 \<and> unread p = 0 \<and> total p = 0" by simp
  qed
  from len keys srt pt zero show ?thesis by blast
qed

theorem daily_activity_finite_window_witness:
  "(0::int) \<le> 7
   \<and> int (length (dailyActivity exampleNewDate (Some threeArticles) threeArticles exampleNow (Some 7))) = 7
   \<and> map dateKey (dailyActivity exampleNewDate (Some threeArticles) threeArticles exampleNow (Some 7))
       = [19726, 19727, 19728, 19729, 19730, 19731, 19732]"
proof -
  have h: "(0::int) \<le> 7" by simp
  from daily_activity_finite_window[OF h, of exampleNewDate threeArticles threeArticles exampleNow]
  show ?thesis by (simp add: formatDay_exampleNow)
qed






text \<open>
  In the window \<open>all\<close> the source reads \<open>countsMap.get(key)!\<close> for the keys of the map
  itself, so the entry is always there.
\<close>

lemma countsMap_get_defined:
  "key \<in> set (sort (map fst countsMap)) \<Longrightarrow> map_of countsMap key \<noteq> None"
  by (simp add: map_of_eq_None_iff)






lemma threeArticles_dates:
  "map (parseArticleDate exampleNewDate) threeArticles =
     [Some (midnightOf 19732 + 9 * 3600000), Some (midnightOf 19731 + 9 * 3600000),
      Some (midnightOf 19731 + 9 * 3600000)]"
  by (simp add: threeArticles_def parseArticleDate_def exampleArticle_def exampleNewDate_def)



lemma threeArticles_days:
  "map (dayOfArticle exampleNewDate) threeArticles = [Some 19732, Some 19731, Some 19731]"
  "map is_read threeArticles = [True, False, True]"
  by (simp_all add: threeArticles_def dayOfArticle_def parseArticleDate_def exampleArticle_def
      exampleNewDate_def formatDay_def midnightOf_def msPerDay_def)

lemma threeArticles_points:
  "map (\<lambda>p. (dateKey p, read p, unread p, total p))
     (dailyActivity exampleNewDate (Some threeArticles) threeArticles exampleNow (Some 7))
   = [(19726, 0, 0, 0), (19727, 0, 0, 0), (19728, 0, 0, 0), (19729, 0, 0, 0), (19730, 0, 0, 0),
      (19731, 1, 1, 2), (19732, 1, 0, 1)]"
proof -
  obtain a b c where abc: "threeArticles = [a, b, c]" by (simp add: threeArticles_def)
  from threeArticles_days[unfolded abc] have
    "dayOfArticle exampleNewDate a = Some 19732" "dayOfArticle exampleNewDate b = Some 19731"
    "dayOfArticle exampleNewDate c = Some 19731" "is_read a" "\<not> is_read b" "is_read c"
    by simp_all
  then have "map (\<lambda>d. (d, length [x \<leftarrow> threeArticles. dayOfArticle exampleNewDate x = Some d \<and> is_read x],
                     length [x \<leftarrow> threeArticles. dayOfArticle exampleNewDate x = Some d \<and> \<not> is_read x],
                     length [x \<leftarrow> threeArticles. dayOfArticle exampleNewDate x = Some d]))
          [19726, 19727, 19728, 19729, 19730, 19731, 19732]
        = [(19726, 0, 0, 0), (19727, 0, 0, 0), (19728, 0, 0, 0), (19729, 0, 0, 0),
           (19730, 0, 0, 0), (19731, 1, 1, 2), (19732, 1, 0, 1)]"
    by (simp add: abc)
  then show ?thesis
    by (simp add: dailyActivity_finite formatDay_exampleNow dayPoint_sel)
qed

subsection \<open>Longest read streak\<close>

lemma mathRound_of_int: "mathRound (real_of_int n) = n"
  by (simp add: mathRound_def)

lemma dayDiff: "mathRound (real_of_int (midnightOf q - midnightOf p) / real_of_int msPerDay) = q - p"
proof -
  have "midnightOf q - midnightOf p = (q - p) * msPerDay"
    by (simp add: midnightOf_def algebra_simps)
  moreover have "real_of_int msPerDay \<noteq> 0" using msPerDay_pos by simp
  ultimately have "real_of_int (midnightOf q - midnightOf p) / real_of_int msPerDay = real_of_int (q - p)"
    by simp
  then show ?thesis by (simp only: mathRound_of_int)
qed

lemma streakStep_fields:
  assumes "prevDate s = (if xs = [] then None else Some (midnightOf (dateKey (last xs))))"
  shows "current (streakStep p s) =
           (if read p > 0
            then (if xs \<noteq> [] \<and> dateKey p - dateKey (last xs) > 1 then 0 else current s) + 1
            else 0)"
    and "best (streakStep p s) = max (best s) (current (streakStep p s))"
    and "prevDate (streakStep p s) = Some (midnightOf (dateKey p))"
  using assms
  by (cases "xs = []"; simp add: streakStep_def Let_def dayDiff del: of_int_diff)+

lemma isMaxLen_unique: "isMaxLen P a \<Longrightarrow> isMaxLen P b \<Longrightarrow> a = b"
  unfolding isMaxLen_def by (meson le_antisym)

lemma isMaxLen_disj:
  assumes "isMaxLen P a" and "isMaxLen Q b"
  shows "isMaxLen (\<lambda>seg. P seg \<or> Q seg) (max a b)"
proof -
  from assms obtain sa sb where sa: "P sa" "length sa = a" and sb: "Q sb" "length sb = b"
    unfolding isMaxLen_def by blast
  have ex: "\<exists>seg. (P seg \<or> Q seg) \<and> length seg = max a b"
  proof (cases "a \<le> b")
    case True
    then show ?thesis using sb by (auto simp: max_def)
  next
    case False
    then show ?thesis using sa by (auto simp: max_def)
  qed
  have ub: "\<forall>seg. (P seg \<or> Q seg) \<longrightarrow> length seg \<le> max a b"
    using assms unfolding isMaxLen_def by (meson max.coboundedI1 max.coboundedI2)
  from ex ub show ?thesis unfolding isMaxLen_def by blast
qed

lemma isMaxLen_cong: "(\<And>seg. P seg = Q seg) \<Longrightarrow> isMaxLen P n = isMaxLen Q n"
  by (simp add: isMaxLen_def)

lemma goodRun_Nil: "goodRun []"
  by (simp add: goodRun_def)

lemma goodRun_single: "goodRun [p] \<longleftrightarrow> read p > 0"
  by (simp add: goodRun_def)

lemma goodRun_snoc:
  "goodRun (seg @ [p]) \<longleftrightarrow>
   goodRun seg \<and> read p > 0 \<and> (seg = [] \<or> dateKey p - dateKey (last seg) \<le> 1)"
  by (auto simp: goodRun_def successively_append_iff)

lemma suffix_last: "suffix seg xs \<Longrightarrow> seg \<noteq> [] \<Longrightarrow> last seg = last xs"
  by (auto simp: suffix_def)

text \<open>The good suffixes after one more point.\<close>

lemma goodSuffix_step:
  assumes c: "isMaxLen (\<lambda>seg. suffix seg xs \<and> goodRun seg) c"
  shows "isMaxLen (\<lambda>seg. suffix seg (xs @ [p]) \<and> goodRun seg)
           (if read p > 0
            then (if xs \<noteq> [] \<and> dateKey p - dateKey (last xs) > 1 then 0 else c) + 1
            else 0)"
proof (cases "read p > 0")
  case False
  have "\<And>seg. suffix seg (xs @ [p]) \<and> goodRun seg \<longleftrightarrow> seg = []"
    using False by (auto simp: goodRun_snoc goodRun_Nil)
  then have "isMaxLen (\<lambda>seg. suffix seg (xs @ [p]) \<and> goodRun seg) 0
             = isMaxLen (\<lambda>seg :: dailyActivityPoint list. seg = []) 0"
    by (rule isMaxLen_cong)
  moreover have "isMaxLen (\<lambda>seg :: dailyActivityPoint list. seg = []) 0" by (simp add: isMaxLen_def)
  ultimately have "isMaxLen (\<lambda>seg. suffix seg (xs @ [p]) \<and> goodRun seg) 0" by simp
  moreover have "(if read p > 0
            then (if xs \<noteq> [] \<and> dateKey p - dateKey (last xs) > 1 then 0 else c) + 1
            else 0) = 0"
    using False by simp
  ultimately show ?thesis by (simp only:)
next
  case True
  show ?thesis
  proof (cases "xs \<noteq> [] \<and> dateKey p - dateKey (last xs) > 1")
    case gap: True
    have "\<And>seg. suffix seg (xs @ [p]) \<and> goodRun seg \<longleftrightarrow> seg = [] \<or> seg = [p]"
    proof
      fix seg
      assume "suffix seg (xs @ [p]) \<and> goodRun seg"
      then consider "seg = []" | zs where "seg = zs @ [p]" "suffix zs xs" "goodRun (zs @ [p])"
        by auto
      then show "seg = [] \<or> seg = [p]"
      proof cases
        case 1
        then show ?thesis by simp
      next
        case 2
        have "zs = []"
        proof (rule ccontr)
          assume "zs \<noteq> []"
          with 2 have "last zs = last xs" by (simp add: suffix_last)
          with 2(3) \<open>zs \<noteq> []\<close> gap show False by (simp add: goodRun_snoc)
        qed
        with 2 show ?thesis by simp
      qed
    next
      fix seg
      assume "seg = [] \<or> seg = [p]"
      then show "suffix seg (xs @ [p]) \<and> goodRun seg"
        using True by (auto simp: goodRun_Nil goodRun_single)
    qed
    then have "isMaxLen (\<lambda>seg. suffix seg (xs @ [p]) \<and> goodRun seg) 1
               = isMaxLen (\<lambda>seg. seg = [] \<or> seg = [p]) 1"
      by (rule isMaxLen_cong)
    moreover have "isMaxLen (\<lambda>seg. seg = [] \<or> seg = [p]) 1"
      unfolding isMaxLen_def by auto
    ultimately have "isMaxLen (\<lambda>seg. suffix seg (xs @ [p]) \<and> goodRun seg) 1" by simp
    moreover have "(if read p > 0
            then (if xs \<noteq> [] \<and> dateKey p - dateKey (last xs) > 1 then 0 else c) + 1
            else 0) = 1"
      using True gap by simp
    ultimately show ?thesis by (simp only:)
  next
    case nogap: False
    from c obtain s0 where s0: "suffix s0 xs" "goodRun s0" "length s0 = c"
      and ub: "\<And>seg. suffix seg xs \<Longrightarrow> goodRun seg \<Longrightarrow> length seg \<le> c"
      unfolding isMaxLen_def by blast
    have ext: "goodRun (zs @ [p])" if "suffix zs xs" "goodRun zs" for zs
    proof (cases "zs = []")
      case True
      then show ?thesis using \<open>read p > 0\<close> by (simp add: goodRun_single)
    next
      case False
      with that have "last zs = last xs" and "xs \<noteq> []" by (auto simp: suffix_last suffix_def)
      with nogap that \<open>read p > 0\<close> show ?thesis by (simp add: goodRun_snoc)
    qed
    have ex: "\<exists>seg. (suffix seg (xs @ [p]) \<and> goodRun seg) \<and> length seg = c + 1"
      using s0 ext[OF s0(1,2)] by (intro exI[of _ "s0 @ [p]"]) simp
    have "\<forall>seg. suffix seg (xs @ [p]) \<and> goodRun seg \<longrightarrow> length seg \<le> c + 1"
    proof (intro allI impI)
      fix seg assume "suffix seg (xs @ [p]) \<and> goodRun seg"
      then consider "seg = []" | zs where "seg = zs @ [p]" "suffix zs xs" "goodRun (zs @ [p])"
        by auto
      then show "length seg \<le> c + 1"
      proof cases
        case 1
        then show ?thesis by simp
      next
        case 2
        then have "goodRun zs" by (simp add: goodRun_snoc)
        with 2 ub have "length zs \<le> c" by blast
        with 2 show ?thesis by simp
      qed
    qed
    with ex have "isMaxLen (\<lambda>seg. suffix seg (xs @ [p]) \<and> goodRun seg) (c + 1)"
      unfolding isMaxLen_def by blast
    moreover have "(if read p > 0
            then (if xs \<noteq> [] \<and> dateKey p - dateKey (last xs) > 1 then 0 else c) + 1
            else 0) = c + 1"
      using True nogap by auto
    ultimately show ?thesis by (simp only:)
  qed
qed

text \<open>The good runs after one more point: the old ones and the new good suffixes.\<close>

lemma goodSub_step:
  assumes "isMaxLen (\<lambda>seg. sublist seg xs \<and> goodRun seg) b"
      and "isMaxLen (\<lambda>seg. suffix seg (xs @ [p]) \<and> goodRun seg) c"
  shows "isMaxLen (\<lambda>seg. sublist seg (xs @ [p]) \<and> goodRun seg) (max b c)"
proof -
  have "\<And>seg. (sublist seg (xs @ [p]) \<and> goodRun seg)
        = ((sublist seg xs \<and> goodRun seg) \<or> (suffix seg (xs @ [p]) \<and> goodRun seg))"
    by (subst sublist_snoc) blast
  then have "isMaxLen (\<lambda>seg. sublist seg (xs @ [p]) \<and> goodRun seg) (max b c)
     = isMaxLen (\<lambda>seg. (sublist seg xs \<and> goodRun seg) \<or> (suffix seg (xs @ [p]) \<and> goodRun seg)) (max b c)"
    by (rule isMaxLen_cong)
  then show ?thesis using isMaxLen_disj[OF assms] by simp
qed

lemma streak_invariant:
  "isMaxLen (\<lambda>seg. suffix seg xs \<and> goodRun seg)
      (current (fold streakStep xs \<lparr>best = 0, current = 0, prevDate = None\<rparr>))
   \<and> isMaxLen (\<lambda>seg. sublist seg xs \<and> goodRun seg)
      (best (fold streakStep xs \<lparr>best = 0, current = 0, prevDate = None\<rparr>))
   \<and> prevDate (fold streakStep xs \<lparr>best = 0, current = 0, prevDate = None\<rparr>)
       = (if xs = [] then None else Some (midnightOf (dateKey (last xs))))"
proof (induction xs rule: rev_induct)
  case Nil
  then show ?case by (simp add: isMaxLen_def goodRun_Nil)
next
  case (snoc p xs)
  let ?s = "fold streakStep xs \<lparr>best = 0, current = 0, prevDate = None\<rparr>"
  from snoc have c: "isMaxLen (\<lambda>seg. suffix seg xs \<and> goodRun seg) (current ?s)"
    and b: "isMaxLen (\<lambda>seg. sublist seg xs \<and> goodRun seg) (best ?s)"
    and pd: "prevDate ?s = (if xs = [] then None else Some (midnightOf (dateKey (last xs))))"
    by blast+
  have st: "fold streakStep (xs @ [p]) \<lparr>best = 0, current = 0, prevDate = None\<rparr> = streakStep p ?s"
    by simp
  have c': "isMaxLen (\<lambda>seg. suffix seg (xs @ [p]) \<and> goodRun seg) (current (streakStep p ?s))"
    using goodSuffix_step[OF c, of p] by (simp only: streakStep_fields(1)[OF pd])
  have b': "isMaxLen (\<lambda>seg. sublist seg (xs @ [p]) \<and> goodRun seg) (best (streakStep p ?s))"
    using goodSub_step[OF b c'] by (simp only: streakStep_fields(2)[OF pd])
  have pd': "prevDate (streakStep p ?s) = Some (midnightOf (dateKey p))"
    by (rule streakStep_fields(3)[OF pd])
  from c' b' pd' show ?case by (simp only: st) simp
qed

lemma longestReadStreak_isMax:
  "isMaxLen (\<lambda>seg. sublist seg points \<and> goodRun seg) (longestReadStreak points)"
proof (cases "points = []")
  case True
  then show ?thesis by (simp add: longestReadStreak_def isMaxLen_def goodRun_Nil)
next
  case False
  then show ?thesis using streak_invariant[of points] by (simp add: longestReadStreak_def)
qed

lemma streak_example: "longestReadStreak (readsFrom d [1, 1, 0, 1, 1, 1, 0]) = 3"
  by (simp add: longestReadStreak_def readsFrom_def streakStep_def Let_def dayDiff
      del: of_int_diff)

text \<open>
  Claim C5. The result is the length of a longest run of the series: no run is longer, and
  some run has that length. A run is a stretch of successive points, each with a read
  article, in which no point lies more than one day after its predecessor (in the
  ascending series: consecutive calendar days). The empty series gives 0, and the read
  counts 1, 1, 0, 1, 1, 1, 0 on seven consecutive days give 3.
\<close>

theorem longest_read_streak:
  "(\<forall>seg. sublist seg points \<and> goodRun seg \<longrightarrow> length seg \<le> longestReadStreak points)
   \<and> (\<exists>seg. sublist seg points \<and> goodRun seg \<and> length seg = longestReadStreak points)
   \<and> longestReadStreak [] = 0
   \<and> longestReadStreak (readsFrom d [1, 1, 0, 1, 1, 1, 0]) = 3"
proof -
  have "isMaxLen (\<lambda>seg. sublist seg points \<and> goodRun seg) (longestReadStreak points)"
    by (rule longestReadStreak_isMax)
  then have "(\<forall>seg. sublist seg points \<and> goodRun seg \<longrightarrow> length seg \<le> longestReadStreak points)"
    and "(\<exists>seg. sublist seg points \<and> goodRun seg \<and> length seg = longestReadStreak points)"
    unfolding isMaxLen_def by blast+
  moreover have "longestReadStreak [] = 0" by (simp add: longestReadStreak_def)
  ultimately show ?thesis using streak_example by blast
qed

theorem longest_read_streak_witness:
  "sublist (readsFrom 19729 [1, 1, 1]) exampleWeek
   \<and> goodRun (readsFrom 19729 [1, 1, 1])
   \<and> length (readsFrom 19729 [1, 1, 1]) \<le> longestReadStreak exampleWeek
   \<and> longestReadStreak exampleWeek = 3"
proof -
  have e: "exampleWeek = readsFrom 19726 [1, 1, 0] @ readsFrom 19729 [1, 1, 1] @ readsFrom 19732 [0]"
    by (simp add: exampleWeek_def readsFrom_def)
  have s: "sublist (readsFrom 19729 [1, 1, 1]) exampleWeek"
    unfolding e by (rule sublist_appendI)
  have g: "goodRun (readsFrom 19729 [1, 1, 1])"
    by (simp add: goodRun_def readsFrom_def)
  note t = longest_read_streak[of exampleWeek 19726]
  from t have "\<forall>seg. sublist seg exampleWeek \<and> goodRun seg
                 \<longrightarrow> length seg \<le> longestReadStreak exampleWeek"
    by (rule conjunct1)
  with s g have l: "length (readsFrom 19729 [1, 1, 1]) \<le> longestReadStreak exampleWeek"
    by blast
  from t have "longestReadStreak (readsFrom 19726 [1, 1, 0, 1, 1, 1, 0]) = 3"
    by (rule conjunct2[OF conjunct2[OF conjunct2]])
  then have "longestReadStreak exampleWeek = 3"
    by (simp only: exampleWeek_def)
  with s g l show ?thesis by (intro conjI)
qed

subsection \<open>Cluster topics\<close>

lemma isArrayIndex_2024: "isArrayIndex ''2024''" "\<not> isArrayIndex ''AI''"
  by (simp_all add: isArrayIndex_def isDigit_def decimalValue_def)

lemma collect_year: "collectTopics [1] yearTopicArticles = [''AI'', ''2024'']"
  by (simp add: collectTopics_def pushTopics_def yearTopicArticles_def topicArticle_def
      exampleArticle_def)

lemma counts_year: "topicCounts [''AI'', ''2024''] = [(''AI'', 1), (''2024'', 1)]"
  by (simp add: topicCounts_def bumpTopic_def)

lemma entries_year:
  "objectEntries [(''AI'', 1), (''2024'', 1)] = [(''2024'', 1), (''AI'', 1)]"
  by (simp add: objectEntries_def isArrayIndex_2024)

lemma not_inherited_year: "\<not> list_ex inheritedProperty [''AI'', ''2024'']"
  by (simp add: inheritedProperty_def)

lemma year_topic_first:
  "getClusterTopics [1] (Some yearTopicArticles) = Some [''2024'', ''AI'']"
proof -
  have "getClusterTopics [1] (Some yearTopicArticles) =
        Some (map fst (take 3 (sort_key (\<lambda>e. - int (snd e))
                (objectEntries (topicCounts [''AI'', ''2024''])))))"
    by (simp only: getClusterTopics_def option.case Let_def collect_year not_inherited_year
        if_False)
  also have "\<dots> = Some (map fst (take 3 (sort_key (\<lambda>e. - int (snd e))
                [(''2024'', 1), (''AI'', 1)])))"
    by (simp only: counts_year entries_year)
  also have "\<dots> = Some [''2024'', ''AI'']" by simp
  finally show ?thesis .
qed

subsection \<open>Collecting the topics of the members\<close>

lemma pushTopics_append: "pushTopics articles i acc = acc @ memberTopics articles i"
  by (simp add: pushTopics_def memberTopics_def split: option.splits)

lemma fold_pushTopics:
  "fold (pushTopics articles) ids acc = acc @ concat (map (memberTopics articles) ids)"
  by (induction ids arbitrary: acc) (simp_all add: pushTopics_append)

lemma collectTopics_concat:
  "collectTopics ids articles = concat (map (memberTopics articles) ids)"
  by (simp add: collectTopics_def fold_pushTopics)

lemma count_list_concat:
  "count_list (concat xss) t = sum_list (map (\<lambda>xs. count_list xs t) xss)"
  by (induction xss) simp_all

subsection \<open>Counting in first-seen order\<close>

lemma set_firstSeen: "set (firstSeen xs) = set xs"
  by (induction xs) auto

lemma distinct_firstSeen: "distinct (firstSeen xs)"
  by (induction xs) (simp_all add: distinct_removeAll)

lemma firstSeen_snoc:
  "firstSeen (xs @ [x]) = (if x \<in> set xs then firstSeen xs else firstSeen xs @ [x])"
  by (induction xs) (auto simp: set_firstSeen)

lemma update_mapped:
  "distinct ks \<Longrightarrow>
   AList.update k v (map (\<lambda>u. (u, f u)) ks)
   = (if k \<in> set ks then map (\<lambda>u. (u, if u = k then v else f u)) ks
      else map (\<lambda>u. (u, f u)) ks @ [(k, v)])"
  by (induction ks) auto

lemma map_of_mapped:
  "map_of (map (\<lambda>u. (u, f u)) ks) k = (if k \<in> set ks then Some (f k) else None)"
  by (simp add: map_of_map_restrict restrict_map_def)

lemma topicCounts_firstSeen:
  "topicCounts ts = map (\<lambda>t. (t, count_list ts t)) (firstSeen ts)"
proof (induction ts rule: rev_induct)
  case Nil
  then show ?case by (simp add: topicCounts_def)
next
  case (snoc t ts)
  let ?m = "map (\<lambda>u. (u, count_list ts u)) (firstSeen ts)"
  have "topicCounts (ts @ [t]) = bumpTopic t (topicCounts ts)"
    by (simp add: topicCounts_def)
  also have "\<dots> = bumpTopic t ?m" by (simp only: snoc.IH)
  also have "\<dots> = AList.update t (count_list ts t + 1) ?m"
    by (simp add: bumpTopic_def map_of_mapped set_firstSeen)
  also have "\<dots> = map (\<lambda>u. (u, count_list (ts @ [t]) u)) (firstSeen (ts @ [t]))"
    by (auto simp: update_mapped distinct_firstSeen set_firstSeen firstSeen_snoc)
  finally show ?case .
qed

lemma topicCounts_lookup:
  "map_of (topicCounts ts) t = (if t \<in> set ts then Some (count_list ts t) else None)"
  by (simp add: topicCounts_firstSeen map_of_mapped set_firstSeen)

lemma objectEntries_plain:
  assumes "\<forall>e \<in> set obj. \<not> isArrayIndex (fst e)"
  shows "objectEntries obj = obj"
proof -
  have "filter (\<lambda>e. isArrayIndex (fst e)) obj = []" using assms by (simp add: filter_empty_conv)
  moreover have "filter (\<lambda>e. \<not> isArrayIndex (fst e)) obj = obj" using assms by simp
  ultimately show ?thesis by (simp add: objectEntries_def)
qed

text \<open>
  Where no collected topic is an array index or an inherited name, the result is the one
  the specification describes.
\<close>

lemma getClusterTopics_refines:
  assumes "\<not> list_ex isArrayIndex (collectTopics ids articles)"
      and "\<not> list_ex inheritedProperty (collectTopics ids articles)"
  shows "getClusterTopics ids (Some articles) = Some (specTopTopics (collectTopics ids articles))"
proof -
  let ?ts = "collectTopics ids articles"
  have "\<forall>e \<in> set (topicCounts ?ts). \<not> isArrayIndex (fst e)"
    using assms(1) by (auto simp: topicCounts_firstSeen set_firstSeen list_ex_iff)
  then have "objectEntries (topicCounts ?ts) = topicCounts ?ts" by (rule objectEntries_plain)
  then show ?thesis using assms(2)
    by (simp add: getClusterTopics_def Let_def specTopTopics_def topicCounts_firstSeen)
qed

lemma specTopTopics_props:
  "length (specTopTopics ts) \<le> 3"
  "set (specTopTopics ts) \<subseteq> set ts"
  "distinct (specTopTopics ts)"
  "sorted_wrt (\<lambda>a b. count_list ts a \<ge> count_list ts b) (specTopTopics ts)"
proof -
  let ?es = "map (\<lambda>t. (t, count_list ts t)) (firstSeen ts)"
  let ?srt = "sort_key (\<lambda>e. - int (snd e)) ?es"
  show "length (specTopTopics ts) \<le> 3" by (simp add: specTopTopics_def)
  have sub: "set (take 3 ?srt) \<subseteq> set ?es" using set_take_subset[of 3 ?srt] by simp
  then show "set (specTopTopics ts) \<subseteq> set ts"
    by (auto simp: specTopTopics_def set_firstSeen)
  have "distinct (map fst ?srt)"
  proof -
    have "distinct (map fst ?es)" by (simp add: comp_def distinct_firstSeen)
    then show ?thesis
      by (simp only: distinct_map distinct_sort set_sort)
  qed
  then show "distinct (specTopTopics ts)"
    by (simp add: specTopTopics_def take_map[symmetric] distinct_take)
  have snd_eq: "\<forall>e \<in> set ?srt. snd e = count_list ts (fst e)" by auto
  have "sorted (map (\<lambda>e. - int (snd e)) ?srt)" by (rule sorted_sort_key)
  then have "sorted_wrt (\<lambda>a b. snd a \<ge> snd b) ?srt" by (simp add: sorted_map)
  then have "sorted_wrt (\<lambda>a b. count_list ts (fst a) \<ge> count_list ts (fst b)) ?srt"
    using snd_eq by (auto intro: sorted_wrt_mono_rel[rotated])
  then have "sorted_wrt (\<lambda>a b. count_list ts (fst a) \<ge> count_list ts (fst b)) (take 3 ?srt)"
    by (rule sorted_wrt_take)
  then show "sorted_wrt (\<lambda>a b. count_list ts a \<ge> count_list ts b) (specTopTopics ts)"
    by (simp add: specTopTopics_def sorted_wrt_map)
qed

lemma collect_four:
  "collectTopics [1, 2, 3, 4] fourTopicArticles = [''A'', ''B'', ''C'', ''D'']"
  "collectTopics [1, 2, 3, 4, 4] fourTopicArticles = [''A'', ''B'', ''C'', ''D'', ''D'']"
  by (simp_all add: collectTopics_def pushTopics_def fourTopicArticles_def topicArticle_def
      exampleArticle_def)

lemma plain_four:
  "\<not> list_ex isArrayIndex [''A'', ''B'', ''C'', ''D'']"
  "\<not> list_ex inheritedProperty [''A'', ''B'', ''C'', ''D'']"
  "\<not> list_ex isArrayIndex [''A'', ''B'', ''C'', ''D'', ''D'']"
  "\<not> list_ex inheritedProperty [''A'', ''B'', ''C'', ''D'', ''D'']"
  by (simp_all add: isArrayIndex_def isDigit_def inheritedProperty_def)

lemma four_members:
  "getClusterTopics [1, 2, 3, 4] (Some fourTopicArticles) = Some [''A'', ''B'', ''C'']"
proof -
  have "getClusterTopics [1, 2, 3, 4] (Some fourTopicArticles)
        = Some (specTopTopics (collectTopics [1, 2, 3, 4] fourTopicArticles))"
    by (rule getClusterTopics_refines; simp only: collect_four plain_four not_False_eq_True)
  also have "\<dots> = Some (specTopTopics [''A'', ''B'', ''C'', ''D''])"
    by (simp only: collect_four)
  also have "\<dots> = Some [''A'', ''B'', ''C'']" by (simp add: specTopTopics_def)
  finally show ?thesis .
qed

lemma four_members_duplicate:
  "getClusterTopics [1, 2, 3, 4, 4] (Some fourTopicArticles) = Some [''D'', ''A'', ''B'']"
proof -
  have "getClusterTopics [1, 2, 3, 4, 4] (Some fourTopicArticles)
        = Some (specTopTopics (collectTopics [1, 2, 3, 4, 4] fourTopicArticles))"
    by (rule getClusterTopics_refines; simp only: collect_four plain_four not_False_eq_True)
  also have "\<dots> = Some (specTopTopics [''A'', ''B'', ''C'', ''D'', ''D''])"
    by (simp only: collect_four)
  also have "\<dots> = Some [''D'', ''A'', ''B'']" by (simp add: specTopTopics_def)
  finally show ?thesis .
qed

text \<open>
  Claim C10. The collected topics are the concatenation, over the member ids in order and
  with repetitions, of the topics of the article of each id; so the count of a topic is
  the sum over the occurrences of the ids of its count in that article's topics, and an
  id listed twice counts twice. With four articles of one topic each, listing the fourth
  id twice moves its topic to the front and the third topic out of the result.
\<close>

theorem duplicate_ids_counted_per_occurrence:
  "collectTopics ids articles = concat (map (memberTopics articles) ids)
   \<and> (\<not> inheritedProperty t \<longrightarrow>
        map_of (topicCounts (collectTopics ids articles)) t
        = (if (\<Sum>i\<leftarrow>ids. count_list (memberTopics articles i) t) = 0 then None
           else Some (\<Sum>i\<leftarrow>ids. count_list (memberTopics articles i) t)))
   \<and> getClusterTopics [1, 2, 3, 4] (Some fourTopicArticles) = Some [''A'', ''B'', ''C'']
   \<and> getClusterTopics [1, 2, 3, 4, 4] (Some fourTopicArticles) = Some [''D'', ''A'', ''B'']"
proof -
  let ?ts = "collectTopics ids articles"
  have c: "count_list ?ts t = (\<Sum>i\<leftarrow>ids. count_list (memberTopics articles i) t)"
    by (simp add: collectTopics_concat count_list_concat comp_def)
  have "map_of (topicCounts ?ts) t = (if count_list ?ts t = 0 then None else Some (count_list ?ts t))"
    by (simp add: topicCounts_lookup count_list_0_iff)
  then have "map_of (topicCounts ?ts) t
        = (if (\<Sum>i\<leftarrow>ids. count_list (memberTopics articles i) t) = 0 then None
           else Some (\<Sum>i\<leftarrow>ids. count_list (memberTopics articles i) t))"
    by (simp only: c)
  with collectTopics_concat four_members four_members_duplicate show ?thesis by blast
qed

theorem duplicate_ids_counted_per_occurrence_witness:
  "\<not> inheritedProperty ''D''
   \<and> map_of (topicCounts (collectTopics [1, 2, 3, 4, 4] fourTopicArticles)) ''D'' = Some 2
   \<and> map_of (topicCounts (collectTopics [1, 2, 3, 4] fourTopicArticles)) ''D'' = Some 1"
proof -
  have h: "\<not> inheritedProperty ''D''" by (simp add: inheritedProperty_def)
  have m: "map (\<lambda>i. count_list (memberTopics fourTopicArticles i) ''D'') [1, 2, 3, 4, 4]
           = [0, 0, 0, 1, 1]"
    by (simp add: memberTopics_def fourTopicArticles_def topicArticle_def exampleArticle_def)
  have m': "map (\<lambda>i. count_list (memberTopics fourTopicArticles i) ''D'') [1, 2, 3, 4]
           = [0, 0, 0, 1]"
    by (simp add: memberTopics_def fourTopicArticles_def topicArticle_def exampleArticle_def)
  from duplicate_ids_counted_per_occurrence[of "[1, 2, 3, 4, 4]" fourTopicArticles "''D''"]
  have "\<not> inheritedProperty ''D'' \<longrightarrow>
        map_of (topicCounts (collectTopics [1, 2, 3, 4, 4] fourTopicArticles)) ''D''
        = (if sum_list (map (\<lambda>i. count_list (memberTopics fourTopicArticles i) ''D'') [1, 2, 3, 4, 4]) = 0
           then None
           else Some (sum_list (map (\<lambda>i. count_list (memberTopics fourTopicArticles i) ''D'') [1, 2, 3, 4, 4])))"
    by (rule conjunct1[OF conjunct2])
  with h have "map_of (topicCounts (collectTopics [1, 2, 3, 4, 4] fourTopicArticles)) ''D''
        = (if sum_list [0, 0, 0, 1, 1] = (0::nat) then None else Some (sum_list [0, 0, 0, 1, 1]))"
    by (simp only: m not_False_eq_True simp_thms)
  then have 1: "map_of (topicCounts (collectTopics [1, 2, 3, 4, 4] fourTopicArticles)) ''D'' = Some 2"
    by simp
  from duplicate_ids_counted_per_occurrence[of "[1, 2, 3, 4]" fourTopicArticles "''D''"]
  have "\<not> inheritedProperty ''D'' \<longrightarrow>
        map_of (topicCounts (collectTopics [1, 2, 3, 4] fourTopicArticles)) ''D''
        = (if sum_list (map (\<lambda>i. count_list (memberTopics fourTopicArticles i) ''D'') [1, 2, 3, 4]) = 0
           then None
           else Some (sum_list (map (\<lambda>i. count_list (memberTopics fourTopicArticles i) ''D'') [1, 2, 3, 4])))"
    by (rule conjunct1[OF conjunct2])
  with h have "map_of (topicCounts (collectTopics [1, 2, 3, 4] fourTopicArticles)) ''D''
        = (if sum_list [0, 0, 0, 1] = (0::nat) then None else Some (sum_list [0, 0, 0, 1]))"
    by (simp only: m' not_False_eq_True simp_thms)
  then have 2: "map_of (topicCounts (collectTopics [1, 2, 3, 4] fourTopicArticles)) ''D'' = Some 1"
    by simp
  from h 1 2 show ?thesis by (intro conjI)
qed

text \<open>
  Claim C9, at an input where it fails. One member article has the topics "AI" and
  "2024", once each. The object that counts them enumerates the key "2024", an array
  index, before "AI", so the result starts with "2024"; first-seen order of the tie asks
  for "AI" first.
\<close>

theorem array_index_topic_first:
  "getClusterTopics [1] (Some yearTopicArticles) = Some [''2024'', ''AI'']
   \<and> specTopTopics (collectTopics [1] yearTopicArticles) = [''AI'', ''2024'']"
proof -
  have "specTopTopics [''AI'', ''2024''] = [''AI'', ''2024'']"
    by (simp add: specTopTopics_def)
  then show ?thesis using year_topic_first by (simp only: collect_year)
qed

lemma scenario_topics:
  "getClusterTopics [1, 2] (Some scenarioArticles) = Some [''AI'', ''Tech'', ''Climate'']"
proof -
  have c: "collectTopics [1, 2] scenarioArticles = [''AI'', ''Tech'', ''AI'', ''Climate'']"
    by (simp add: collectTopics_def pushTopics_def scenarioArticles_def topicArticle_def
        exampleArticle_def)
  have p: "\<not> list_ex isArrayIndex [''AI'', ''Tech'', ''AI'', ''Climate'']"
       "\<not> list_ex inheritedProperty [''AI'', ''Tech'', ''AI'', ''Climate'']"
    by (simp_all add: isArrayIndex_def isDigit_def inheritedProperty_def)
  have "getClusterTopics [1, 2] (Some scenarioArticles)
        = Some (specTopTopics (collectTopics [1, 2] scenarioArticles))"
    by (rule getClusterTopics_refines; simp only: c p not_False_eq_True)
  also have "\<dots> = Some (specTopTopics [''AI'', ''Tech'', ''AI'', ''Climate''])"
    by (simp only: c)
  also have "\<dots> = Some [''AI'', ''Tech'', ''Climate'']" by (simp add: specTopTopics_def)
  finally show ?thesis .
qed

lemma no_topics_empty:
  "collectTopics ids articles = [] \<Longrightarrow> getClusterTopics ids (Some articles) = Some []"
  by (simp add: getClusterTopics_def topicCounts_def objectEntries_def)

end
